theory Spec2Isabelle
  imports Main
begin

section \<open>The proxy filter script \<open>docker/proxy/filter.py\<close>\<close>

text \<open>
  The script is an addon of an intercepting proxy. It has four functions:
  \<open>load_whitelist\<close>, \<open>log_blocked_request\<close>, \<open>is_domain_allowed\<close> and the hook
  \<open>request\<close>. The model passes the state the script can touch (the module global
  \<open>ALLOWED_DOMAINS\<close>, the log file and its directory, the proxy's own log) explicitly,
  and every exception the source can raise is a value.

  A Python \<open>str\<close> is a \<open>string\<close>; one \<open>char\<close> stands for one code point, so the
  strings of the model are those over the code points below 256. Only equality,
  concatenation and suffix tests are applied to the strings of a request. The calls
  of \<open>ctx.log\<close> append to the proxy's log and do not raise.
\<close>

subsection \<open>Python values\<close>

text \<open>
  What \<open>json.load\<close> returns. A float keeps its literal text; \<open>JObj\<close> lists the items
  of a dict, whose keys are distinct.
\<close>

datatype json =
    JNull
  | JBool bool
  | JInt int
  | JFloat string
  | JStr string
  | JArr "json list"
  | JObj "(string \<times> json) list"

text \<open>An exception: its class name and \<open>str(e)\<close>.\<close>

datatype exn = Exn (exc_class: string) (exc_str: string)

fun type_name :: "json \<Rightarrow> string" where
  "type_name JNull = ''NoneType''"
| "type_name (JBool b) = ''bool''"
| "type_name (JInt i) = ''int''"
| "type_name (JFloat r) = ''float''"
| "type_name (JStr s) = ''str''"
| "type_name (JArr xs) = ''list''"
| "type_name (JObj kvs) = ''dict''"

text \<open>\<open>s.endswith(suf)\<close>\<close>

definition endswith :: "string \<Rightarrow> string \<Rightarrow> bool" where
  "endswith s suf =
     (length suf \<le> length s \<and> drop (length s - length suf) s = suf)"

text \<open>\<open>str(n)\<close> for a length.\<close>

fun str_nat :: "nat \<Rightarrow> string" where
  "str_nat n =
     (if n < 10 then [''0123456789'' ! n]
      else str_nat (n div 10) @ [''0123456789'' ! (n mod 10)])"

declare str_nat.simps [simp del]

definition str_int :: "int \<Rightarrow> string" where
  "str_int i = (if i < 0 then ''-'' @ str_nat (nat (- i)) else str_nat (nat i))"

subsection \<open>\<open>json.dumps\<close> with its default settings\<close>

text \<open>
  \<open>ensure_ascii\<close> is on: a backslash, a double quote and every character outside
  the range from space to tilde are escaped. The separators are a comma and a colon,
  each followed by one space, and the items of a dict keep their order.
\<close>

definition hex_digit :: "nat \<Rightarrow> char" where
  "hex_digit n = ''0123456789abcdef'' ! n"

definition escape_char :: "char \<Rightarrow> string" where
  "escape_char c =
     (if c = CHR 0x5C then [CHR 0x5C, CHR 0x5C]
      else if c = CHR 0x22 then [CHR 0x5C, CHR 0x22]
      else if c = CHR 0x08 then [CHR 0x5C, CHR ''b'']
      else if c = CHR 0x0C then [CHR 0x5C, CHR ''f'']
      else if c = CHR 0x0A then [CHR 0x5C, CHR ''n'']
      else if c = CHR 0x0D then [CHR 0x5C, CHR ''r'']
      else if c = CHR 0x09 then [CHR 0x5C, CHR ''t'']
      else if (of_char c :: nat) < 32 \<or> 126 < (of_char c :: nat) then
        [CHR 0x5C, CHR ''u'', CHR ''0'', CHR ''0'',
         hex_digit ((of_char c :: nat) div 16), hex_digit ((of_char c :: nat) mod 16)]
      else [c])"

definition encode_basestring_ascii :: "string \<Rightarrow> string" where
  "encode_basestring_ascii s = [CHR 0x22] @ concat (map escape_char s) @ [CHR 0x22]"

fun join :: "string \<Rightarrow> string list \<Rightarrow> string" where
  "join sep [] = []"
| "join sep [x] = x"
| "join sep (x # y # ys) = x @ sep @ join sep (y # ys)"

fun json_dumps :: "json \<Rightarrow> string" where
  "json_dumps JNull = ''null''"
| "json_dumps (JBool b) = (if b then ''true'' else ''false'')"
| "json_dumps (JInt i) = str_int i"
| "json_dumps (JFloat r) = r"
| "json_dumps (JStr s) = encode_basestring_ascii s"
| "json_dumps (JArr xs) = ''['' @ join '', '' (map json_dumps xs) @ '']''"
| "json_dumps (JObj kvs) =
     ''{'' @ join '', ''
        (map (\<lambda>kv. encode_basestring_ascii (fst kv) @ '': '' @ json_dumps (snd kv)) kvs)
      @ ''}''"

subsection \<open>The state the script works on\<close>

text \<open>The proxy's own log, \<open>ctx.log\<close>: a level and a message per call.\<close>

datatype level = Info | Warn | Error

text \<open>
  \<open>ALLOWED_DOMAINS\<close> is the module global, a Python set: its members are listed in the
  order in which the interpreter iterates over it. \<open>log_dir\<close> says whether the
  directory of \<open>LOG_PATH\<close> exists, \<open>log_file\<close> is the text of the file at \<open>LOG_PATH\<close>
  (\<open>None\<close> when there is no such file).
\<close>

record world =
  ALLOWED_DOMAINS :: "json list"
  log_dir :: bool
  log_file :: "string option"
  ctx_log :: "(level \<times> string) list"

text \<open>
  What the operating system does to the file operations of one call of
  \<open>log_blocked_request\<close>: \<open>os.makedirs\<close> raises, or \<open>open\<close> raises, or writing raises
  after some characters of the line have reached the file. The exception is one the
  handler \<open>except Exception\<close> catches, as every \<open>OSError\<close> is.
\<close>

datatype io_fault = MakedirsFails exn | OpenFails exn | WriteFails nat exn

fun fault_exn :: "io_fault \<Rightarrow> exn" where
  "fault_exn (MakedirsFails e) = e"
| "fault_exn (OpenFails e) = e"
| "fault_exn (WriteFails k e) = e"

text \<open>
  The surroundings of one call of the hook: the text \<open>datetime.utcnow().isoformat()\<close>
  gives, and the fault of the file operations, if any.
\<close>

record env =
  utcnow_isoformat :: string
  io_fault :: "io_fault option"

text \<open>
  \<open>flow.request\<close> and \<open>flow.response\<close>. The hook and the attribute \<open>request\<close> share a
  name in the source; the attributes of the flow are \<open>flow_request\<close> and
  \<open>flow_response\<close> here. \<open>content\<close> is what the getter \<open>flow.request.content\<close> of the
  proxy gives: the decoded body, \<open>None\<close> when there is no body, or the \<open>ValueError\<close>
  it raises when the body cannot be decoded by its \<open>Content-Encoding\<close>.
\<close>

record http_request =
  "method" :: string
  host :: string
  path :: string
  content :: "exn + string option"

record http_response =
  status_code :: nat
  body :: string
  headers :: "(string \<times> string) list"

record http_flow =
  flow_request :: http_request
  flow_response :: "http_response option"

definition ctx_log_write :: "level \<Rightarrow> string \<Rightarrow> world \<Rightarrow> world" where
  "ctx_log_write lv msg w = w\<lparr>ctx_log := ctx_log w @ [(lv, msg)]\<rparr>"

subsection \<open>\<open>load_whitelist\<close>\<close>

text \<open>\<open>data.get(key, default)\<close>: only a dict has the method.\<close>

definition dict_get :: "json \<Rightarrow> string \<Rightarrow> json \<Rightarrow> exn + json" where
  "dict_get data key dflt =
     (case data of
        JObj kvs \<Rightarrow> Inr (case map_of kvs key of Some v \<Rightarrow> v | None \<Rightarrow> dflt)
      | _ \<Rightarrow> Inl (Exn ''AttributeError''
                 ([CHR 0x27] @ type_name data @ [CHR 0x27] @ '' object has no attribute ''
                    @ [CHR 0x27] @ ''get'' @ [CHR 0x27])))"

text \<open>What iterating over a value yields: a list its items, a dict its keys, a string
  its characters.\<close>

definition py_iter :: "json \<Rightarrow> exn + json list" where
  "py_iter v =
     (case v of
        JArr xs \<Rightarrow> Inr xs
      | JObj kvs \<Rightarrow> Inr (map (\<lambda>kv. JStr (fst kv)) kvs)
      | JStr s \<Rightarrow> Inr (map (\<lambda>c. JStr [c]) s)
      | _ \<Rightarrow> Inl (Exn ''TypeError'' ([CHR 0x27] @ type_name v @ [CHR 0x27] @ '' object is not iterable'')))"

fun hashable :: "json \<Rightarrow> bool" where
  "hashable (JArr xs) = False"
| "hashable (JObj kvs) = False"
| "hashable v = True"

text \<open>
  \<open>set(v)\<close>. The first item that cannot be hashed raises. The order of iteration over
  the new set is the interpreter's: it follows the hashes of the members, and \<open>py_hash\<close>
  stands for the hash function of the running process. Of items that are equal the
  first is kept, and \<open>True\<close> is equal to \<open>1\<close> and \<open>False\<close> to \<open>0\<close>. (Python also
  takes a float for equal to the integer of the same value; a float of the model is
  equal to the floats of the same text only. No string is concerned.)
\<close>

fun py_key :: "json \<Rightarrow> json" where
  "py_key (JBool b) = JInt (if b then 1 else 0)"
| "py_key v = v"

function py_distinct :: "json list \<Rightarrow> json list" where
  "py_distinct [] = []"
| "py_distinct (x # xs) = x # py_distinct (filter (\<lambda>y. py_key y \<noteq> py_key x) xs)"
  by pat_completeness auto
termination
  by (relation "measure length") (simp_all add: less_Suc_eq_le)


definition py_set :: "(json \<Rightarrow> nat) \<Rightarrow> json \<Rightarrow> exn + json list" where
  "py_set py_hash v =
     (case py_iter v of
        Inl e \<Rightarrow> Inl e
      | Inr xs \<Rightarrow>
          (case filter (\<lambda>x. \<not> hashable x) xs of
             [] \<Rightarrow> Inr (sort_key py_hash (py_distinct xs))
           | x # _ \<Rightarrow> Inl (Exn ''TypeError'' (''unhashable type: '' @ [CHR 0x27] @ type_name x @ [CHR 0x27]))))"

text \<open>
  \<open>opened\<close> is what \<open>open(WHITELIST_PATH)\<close> followed by \<open>json.load\<close> gives: the parsed
  document, or the exception either of them raised. Whatever is raised inside the
  \<open>try\<close> is reported to the proxy's log and the empty set is returned.
\<close>

definition load_whitelist ::
  "(json \<Rightarrow> nat) \<Rightarrow> exn + json \<Rightarrow> world \<Rightarrow> json list \<times> world" where
  "load_whitelist py_hash opened w =
     (case (case opened of
              Inl e \<Rightarrow> Inl e
            | Inr data \<Rightarrow>
                (case dict_get data ''allowedDomains'' (JArr []) of
                   Inl e \<Rightarrow> Inl e
                 | Inr v \<Rightarrow> py_set py_hash v)) of
        Inr s \<Rightarrow> (s, w)
      | Inl e \<Rightarrow> ([], ctx_log_write Error (''Failed to load whitelist: '' @ exc_str e) w))"

text \<open>The module's top level: \<open>ALLOWED_DOMAINS = load_whitelist()\<close>.\<close>

definition startup :: "(json \<Rightarrow> nat) \<Rightarrow> exn + json \<Rightarrow> world \<Rightarrow> world" where
  "startup py_hash opened w =
     (case load_whitelist py_hash opened w of (s, w') \<Rightarrow> w'\<lparr>ALLOWED_DOMAINS := s\<rparr>)"

definition SAFE_METHODS :: "string set" where
  "SAFE_METHODS = {''GET'', ''HEAD'', ''OPTIONS''}"

definition MUTATION_METHODS :: "string set" where
  "MUTATION_METHODS = {''POST'', ''PUT'', ''DELETE'', ''PATCH''}"

subsection \<open>\<open>log_blocked_request\<close>\<close>

definition log_entry :: "string \<Rightarrow> string \<Rightarrow> string \<Rightarrow> string \<Rightarrow> nat \<Rightarrow> json" where
  "log_entry timestamp m h p body_size =
     JObj [(''timestamp'', JStr timestamp),
           (''method'', JStr m),
           (''host'', JStr h),
           (''path'', JStr p),
           (''body_size'', JInt (int body_size)),
           (''action'', JStr ''BLOCKED'')]"

definition file_text :: "world \<Rightarrow> string" where
  "file_text w = (case log_file w of None \<Rightarrow> [] | Some t \<Rightarrow> t)"

text \<open>
  The body of the \<open>try\<close>: \<open>os.makedirs(..., exist_ok=True)\<close>, \<open>open\<close> of \<open>LOG_PATH\<close> for appending and
  the write of one line. It returns the exception that left it, if any.
\<close>

definition write_log_line :: "io_fault option \<Rightarrow> string \<Rightarrow> world \<Rightarrow> exn option \<times> world" where
  "write_log_line fault line w =
     (case fault of
        Some (MakedirsFails e) \<Rightarrow> (Some e, w)
      | Some (OpenFails e) \<Rightarrow> (Some e, w\<lparr>log_dir := True\<rparr>)
      | Some (WriteFails k e) \<Rightarrow>
          (Some e, w\<lparr>log_dir := True, log_file := Some (file_text w @ take k line)\<rparr>)
      | None \<Rightarrow> (None, w\<lparr>log_dir := True, log_file := Some (file_text w @ line)\<rparr>))"

definition log_blocked_request ::
  "env \<Rightarrow> string \<Rightarrow> string \<Rightarrow> string \<Rightarrow> nat \<Rightarrow> world \<Rightarrow> (exn + unit) \<times> world" where
  "log_blocked_request ev m h p body_size w =
     (let timestamp = utcnow_isoformat ev;
          entry = log_entry timestamp m h p body_size;
          w1 = (case write_log_line (io_fault ev) (json_dumps entry @ [CHR 0x0A]) w of
                  (None, w') \<Rightarrow> w'
                | (Some e, w') \<Rightarrow>
                    ctx_log_write Error (''Failed to write log: '' @ exc_str e) w')
      in (Inr (),
          ctx_log_write Warn
            (''BLOCKED: '' @ m @ '' '' @ h @ p @ '' (body: '' @ str_nat body_size @ '' bytes)'')
            w1))"

subsection \<open>\<open>is_domain_allowed\<close>\<close>

text \<open>The loop over the set. Adding \<open>allowed\<close> to the string of one dot raises when \<open>allowed\<close> is not a string.\<close>

fun subdomain_loop :: "string \<Rightarrow> json list \<Rightarrow> exn + bool" where
  "subdomain_loop h [] = Inr False"
| "subdomain_loop h (allowed # rest) =
     (case allowed of
        JStr d \<Rightarrow> (if endswith h (''.'' @ d) then Inr True else subdomain_loop h rest)
      | _ \<Rightarrow> Inl (Exn ''TypeError''
                 (''can only concatenate str (not '' @ [CHR 0x22] @ type_name allowed
                    @ [CHR 0x22] @ '') to str'')))"

definition is_domain_allowed :: "string \<Rightarrow> world \<Rightarrow> (exn + bool) \<times> world" where
  "is_domain_allowed h w =
     (if JStr h \<in> set (ALLOWED_DOMAINS w) then (Inr True, w)
      else (subdomain_loop h (ALLOWED_DOMAINS w), w))"

subsection \<open>The hook \<open>request\<close>\<close>

text \<open>
  \<open>http.Response.make(status, text, headers)\<close> of the proxy: the response with the
  status, the text as its body and the headers given, to which assigning the body
  adds its length as \<open>content-length\<close>.
\<close>

definition Response_make :: "nat \<Rightarrow> string \<Rightarrow> (string \<times> string) list \<Rightarrow> http_response" where
  "Response_make status text hs =
     \<lparr>status_code = status,
      body = text,
      headers = hs @ [(''content-length'', str_nat (length text))]\<rparr>"

text \<open>The response of lines 95 to 103.\<close>

definition forbidden :: "string \<Rightarrow> string \<Rightarrow> http_response" where
  "forbidden m h =
     Response_make 403
       (json_dumps (JObj
          [(''error'', JStr ''Request blocked by network filter''),
           (''message'', JStr (m @ '' requests to '' @ h @ '' are not allowed'')),
           (''hint'', JStr ''Add this domain to whitelist.json if needed'')]))
       [(''Content-Type'', ''application/json'')]"

text \<open>
  Line 91, the size the hook passes to the logger: the length of
  \<open>flow.request.content\<close> when the content is truthy, and 0 when it is \<open>None\<close> or
  empty. The line reads the content outside any \<open>try\<close>, so what the getter raises
  leaves the hook.
\<close>

definition body_size_of :: "http_request \<Rightarrow> exn + nat" where
  "body_size_of r =
     (case content r of
        Inl e \<Rightarrow> Inl e
      | Inr None \<Rightarrow> Inr 0
      | Inr (Some c) \<Rightarrow> Inr (if c = [] then 0 else length c))"

definition request :: "env \<Rightarrow> http_flow \<Rightarrow> world \<Rightarrow> (exn + unit) \<times> http_flow \<times> world" where
  "request ev flow w =
     (let m = method (flow_request flow);
          h = host (flow_request flow);
          p = path (flow_request flow)
      in if m \<in> SAFE_METHODS then
           (Inr (), flow, ctx_log_write Info (''ALLOWED: '' @ m @ '' '' @ h @ p) w)
         else if m \<in> MUTATION_METHODS then
           (case is_domain_allowed h w of
              (Inl e, w1) \<Rightarrow> (Inl e, flow, w1)
            | (Inr True, w1) \<Rightarrow>
                (Inr (), flow,
                 ctx_log_write Info (''ALLOWED (whitelisted): '' @ m @ '' '' @ h @ p) w1)
            | (Inr False, w1) \<Rightarrow>
                (case body_size_of (flow_request flow) of
                   Inl e \<Rightarrow> (Inl e, flow, w1)
                 | Inr body_size \<Rightarrow>
                     (case log_blocked_request ev m h p body_size w1 of
                        (Inl e, w2) \<Rightarrow> (Inl e, flow, w2)
                      | (Inr u, w2) \<Rightarrow>
                          (Inr (), flow\<lparr>flow_response := Some (forbidden m h)\<rparr>, w2))))
         else (Inr (), flow, ctx_log_write Warn (''UNKNOWN METHOD: '' @ m @ '' '' @ h @ p) w))"

text \<open>Whether a member of the set is a string, as every domain of a whitelist is.\<close>

fun is_str :: "json \<Rightarrow> bool" where
  "is_str (JStr s) = True"
| "is_str v = False"

text \<open>Whether the parsed document is an object that has the key.\<close>

definition has_key :: "json \<Rightarrow> string \<Rightarrow> bool" where
  "has_key data key = (case data of JObj kvs \<Rightarrow> key \<in> fst ` set kvs | _ \<Rightarrow> False)"

subsection \<open>Concrete inputs\<close>

text \<open>
  A whitelist of two domains with no log file yet; a call whose file operations all
  succeed, a call in which \<open>open\<close> is refused, a call in which the directory cannot be
  made and a call in which nothing can be written to the opened file; the state
  before the module is run and a whitelist file that does not exist; the same two
  domains in the other order, in a state with a log file; a
  request for a method and a host with a body of two bytes; and such a request whose
  header \<open>Content-Encoding: utf8\<close> makes the getter of the body raise.
\<close>

definition two_domains :: world where
  "two_domains =
     \<lparr>ALLOWED_DOMAINS = [JStr ''example.com'', JStr ''github.com''],
      log_dir = False, log_file = None, ctx_log = []\<rparr>"

definition quiet :: env where
  "quiet = \<lparr>utcnow_isoformat = ''2024-05-01T12:00:00.250000'', io_fault = None\<rparr>"

definition denied :: env where
  "denied =
     \<lparr>utcnow_isoformat = ''2024-05-01T12:00:00.250000'',
      io_fault = Some (OpenFails (Exn ''PermissionError'' ''[Errno 13] Permission denied''))\<rparr>"

definition read_only :: env where
  "read_only =
     \<lparr>utcnow_isoformat = ''2024-05-01T12:00:00.250000'',
      io_fault = Some (MakedirsFails (Exn ''OSError'' ''[Errno 30] Read-only file system''))\<rparr>"

definition disk_full :: env where
  "disk_full =
     \<lparr>utcnow_isoformat = ''2024-05-01T12:00:00.250000'',
      io_fault = Some (WriteFails 0 (Exn ''OSError'' ''[Errno 28] No space left on device''))\<rparr>"

definition before_start :: world where
  "before_start = \<lparr>ALLOWED_DOMAINS = [], log_dir = False, log_file = None, ctx_log = []\<rparr>"

definition no_file :: "exn + json" where
  "no_file = Inl (Exn ''FileNotFoundError'' ''[Errno 2] No such file or directory'')"

definition two_domains_later :: world where
  "two_domains_later =
     \<lparr>ALLOWED_DOMAINS = [JStr ''github.com'', JStr ''example.com''],
      log_dir = True, log_file = Some ''earlier lines'', ctx_log = [(Info, ''started'')]\<rparr>"

definition flow_of :: "string \<Rightarrow> string \<Rightarrow> http_flow" where
  "flow_of m h =
     \<lparr>flow_request =
        \<lparr>method = m, host = h, path = ''/v1/items'', content = Inr (Some ''{}'')\<rparr>,
      flow_response = None\<rparr>"

definition undecodable :: "string \<Rightarrow> string \<Rightarrow> http_flow" where
  "undecodable m h =
     \<lparr>flow_request =
        \<lparr>method = m, host = h, path = ''/v1/items'',
         content = Inl (Exn ''ValueError'' ''Invalid Content-Encoding: utf8'')\<rparr>,
      flow_response = None\<rparr>"

section \<open>Properties\<close>

subsection \<open>Suffixes and the loop of \<open>is_domain_allowed\<close>\<close>

lemma endswith_iff: "endswith s suf \<longleftrightarrow> (\<exists>p. s = p @ suf)"
proof
  assume "endswith s suf"
  then have "s = take (length s - length suf) s @ suf"
    by (metis append_take_drop_id endswith_def)
  then show "\<exists>p. s = p @ suf" ..
next
  assume "\<exists>p. s = p @ suf"
  then show "endswith s suf"
    by (auto simp: endswith_def)
qed

lemma subdomain_loop_all_str:
  "list_all is_str ds \<Longrightarrow>
   subdomain_loop h ds = Inr (\<exists>d. JStr d \<in> set ds \<and> endswith h (''.'' @ d))"
proof (induction ds)
  case Nil
  then show ?case by simp
next
  case (Cons a ds)
  then obtain d where a: "a = JStr d"
    by (cases a) simp_all
  with Cons show ?case by auto
qed

lemma subdomain_loop_True:
  "subdomain_loop h ds = Inr True \<Longrightarrow> \<exists>d. JStr d \<in> set ds \<and> endswith h (''.'' @ d)"
proof (induction ds)
  case Nil
  then show ?case by simp
next
  case (Cons a ds)
  then show ?case
    by (cases a) (auto split: if_splits)
qed

lemma subdomain_loop_False:
  "subdomain_loop h ds = Inr False \<Longrightarrow>
   list_all is_str ds \<and> \<not> (\<exists>d. JStr d \<in> set ds \<and> endswith h (''.'' @ d))"
proof (induction ds)
  case Nil
  then show ?case by simp
next
  case (Cons a ds)
  then show ?case
    by (cases a) (auto split: if_splits)
qed

lemma is_domain_allowed_world: "snd (is_domain_allowed h w) = w"
  by (simp add: is_domain_allowed_def)

lemma is_domain_allowed_str:
  assumes "list_all is_str (ALLOWED_DOMAINS w)"
  shows "fst (is_domain_allowed h w) =
     Inr (JStr h \<in> set (ALLOWED_DOMAINS w)
          \<or> (\<exists>d. JStr d \<in> set (ALLOWED_DOMAINS w) \<and> endswith h (''.'' @ d)))"
  using assms by (simp add: is_domain_allowed_def subdomain_loop_all_str)

lemma list_all_set_eq: "set xs = set ys \<Longrightarrow> list_all P xs = list_all P ys"
  by (simp add: list_all_iff)

subsection \<open>C2: what \<open>is_domain_allowed\<close> decides\<close>

text \<open>
  C2. When the whitelist is a set of domain strings, \<open>is_domain_allowed\<close> returns
  true if and only if the host is equal to a domain of the whitelist, or the host ends
  with a dot followed by a domain of the whitelist; otherwise it returns false.
\<close>

theorem is_domain_allowed_iff:
  assumes "list_all is_str (ALLOWED_DOMAINS w)"
  shows "fst (is_domain_allowed h w) =
     Inr (\<exists>d. JStr d \<in> set (ALLOWED_DOMAINS w) \<and> (h = d \<or> (\<exists>p. h = p @ ''.'' @ d)))"
proof -
  let ?A = "set (ALLOWED_DOMAINS w)"
  have "(JStr h \<in> ?A \<or> (\<exists>d. JStr d \<in> ?A \<and> endswith h (''.'' @ d))) =
      (\<exists>d. JStr d \<in> ?A \<and> (h = d \<or> (\<exists>p. h = p @ ''.'' @ d)))"
    by (auto simp: endswith_iff)
  with is_domain_allowed_str [OF assms, of h] show ?thesis
    by simp
qed

theorem is_domain_allowed_iff_witness:
  "list_all is_str (ALLOWED_DOMAINS two_domains)
   \<and> fst (is_domain_allowed ''api.example.com'' two_domains) = Inr True
   \<and> (\<exists>d. JStr d \<in> set (ALLOWED_DOMAINS two_domains)
          \<and> (''api.example.com'' = d \<or> (\<exists>p. ''api.example.com'' = p @ ''.'' @ d)))
   \<and> fst (is_domain_allowed ''evilexample.com'' two_domains) = Inr False
   \<and> \<not> (\<exists>d. JStr d \<in> set (ALLOWED_DOMAINS two_domains)
          \<and> (''evilexample.com'' = d \<or> (\<exists>p. ''evilexample.com'' = p @ ''.'' @ d)))"
proof -
  have s: "list_all is_str (ALLOWED_DOMAINS two_domains)"
    by (simp add: two_domains_def)
  have e1: "fst (is_domain_allowed ''api.example.com'' two_domains) = Inr True"
    by (simp add: is_domain_allowed_def two_domains_def endswith_def)
  have e2: "fst (is_domain_allowed ''evilexample.com'' two_domains) = Inr False"
    by (simp add: is_domain_allowed_def two_domains_def endswith_def)
  note t1 = trans [OF is_domain_allowed_iff [OF s, of "''api.example.com''", symmetric] e1]
  note t2 = trans [OF is_domain_allowed_iff [OF s, of "''evilexample.com''", symmetric] e2]
  from t1 have c1: "\<exists>d. JStr d \<in> set (ALLOWED_DOMAINS two_domains)
          \<and> (''api.example.com'' = d \<or> (\<exists>p. ''api.example.com'' = p @ ''.'' @ d))"
    by (simp only: sum.inject simp_thms)
  from t2 have c2: "\<not> (\<exists>d. JStr d \<in> set (ALLOWED_DOMAINS two_domains)
          \<and> (''evilexample.com'' = d \<or> (\<exists>p. ''evilexample.com'' = p @ ''.'' @ d)))"
    by (simp only: sum.inject simp_thms)
  from s e1 c1 e2 c2 show ?thesis
    by (intro conjI) assumption+
qed

subsection \<open>The three branches of the hook\<close>

lemma request_safe:
  assumes "method (flow_request flow) \<in> SAFE_METHODS"
  shows "request ev flow w =
    (Inr (), flow,
     ctx_log_write Info
       (''ALLOWED: '' @ method (flow_request flow) @ '' '' @ host (flow_request flow)
          @ path (flow_request flow)) w)"
  using assms by (simp add: request_def)

lemma request_unknown:
  assumes "method (flow_request flow) \<notin> SAFE_METHODS"
    and "method (flow_request flow) \<notin> MUTATION_METHODS"
  shows "request ev flow w =
    (Inr (), flow,
     ctx_log_write Warn
       (''UNKNOWN METHOD: '' @ method (flow_request flow) @ '' '' @ host (flow_request flow)
          @ path (flow_request flow)) w)"
  using assms by (simp add: request_def)

lemma methods_disjoint: "m \<in> MUTATION_METHODS \<Longrightarrow> m \<notin> SAFE_METHODS"
  by (auto simp: MUTATION_METHODS_def SAFE_METHODS_def)

lemma is_domain_allowed_pair:
  "is_domain_allowed h w = (fst (is_domain_allowed h w), w)"
  by (simp add: is_domain_allowed_def)

lemma log_blocked_request_pair:
  "log_blocked_request ev m h p n w = (Inr (), snd (log_blocked_request ev m h p n w))"
  by (simp add: log_blocked_request_def Let_def)

lemma request_mutation:
  assumes "method (flow_request flow) \<in> MUTATION_METHODS"
  shows "request ev flow w =
    (case fst (is_domain_allowed (host (flow_request flow)) w) of
       Inl e \<Rightarrow> (Inl e, flow, w)
     | Inr True \<Rightarrow>
         (Inr (), flow,
          ctx_log_write Info
            (''ALLOWED (whitelisted): '' @ method (flow_request flow) @ '' ''
               @ host (flow_request flow) @ path (flow_request flow)) w)
     | Inr False \<Rightarrow>
         (case body_size_of (flow_request flow) of
            Inl e \<Rightarrow> (Inl e, flow, w)
          | Inr n \<Rightarrow>
              (Inr (), flow\<lparr>flow_response :=
                           Some (forbidden (method (flow_request flow)) (host (flow_request flow)))\<rparr>,
               snd (log_blocked_request ev (method (flow_request flow)) (host (flow_request flow))
                      (path (flow_request flow)) n w))))"
proof -
  let ?h = "host (flow_request flow)"
  note ms = assms methods_disjoint [OF assms]
  show ?thesis
  proof (cases "fst (is_domain_allowed ?h w)")
    case (Inl e)
    then have "is_domain_allowed ?h w = (Inl e, w)"
      by (metis is_domain_allowed_pair)
    with Inl ms show ?thesis
      by (simp add: request_def)
  next
    case (Inr b)
    then have d: "is_domain_allowed ?h w = (Inr b, w)"
      by (metis is_domain_allowed_pair)
    show ?thesis
    proof (cases b)
      case True
      with d Inr ms show ?thesis
        by (simp add: request_def)
    next
      case False
      show ?thesis
      proof (cases "body_size_of (flow_request flow)")
        case (Inl e)
        with False d Inr ms show ?thesis
          by (simp add: request_def)
      next
        case size: (Inr n)
        obtain w2 where l: "log_blocked_request ev (method (flow_request flow)) ?h
            (path (flow_request flow)) n w = (Inr (), w2)"
          using log_blocked_request_pair by blast
        with size False d Inr ms show ?thesis
          by (simp add: request_def)
      qed
    qed
  qed
qed


lemma log_blocked_request_last:
  "last (ctx_log (snd (log_blocked_request ev m h p n w))) =
     (Warn, ''BLOCKED: '' @ m @ '' '' @ h @ p @ '' (body: '' @ str_nat n @ '' bytes)'')"
  by (simp add: log_blocked_request_def Let_def ctx_log_write_def split: prod.splits option.splits)

lemma log_blocked_request_not_info:
  "snd (log_blocked_request ev m h p n w) \<noteq> ctx_log_write Info msg w'"
proof
  assume "snd (log_blocked_request ev m h p n w) = ctx_log_write Info msg w'"
  then have "fst (last (ctx_log (snd (log_blocked_request ev m h p n w)))) =
      fst (last (ctx_log (ctx_log_write Info msg w')))"
    by simp
  then show False
    by (simp add: log_blocked_request_last ctx_log_write_def)
qed

lemma log_blocked_request_whitelist:
  "ALLOWED_DOMAINS (snd (log_blocked_request ev m h p n w)) = ALLOWED_DOMAINS w"
  by (simp add: log_blocked_request_def Let_def ctx_log_write_def write_log_line_def
      split: prod.splits option.splits io_fault.splits)

lemma mutation_names:
  "MUTATION_METHODS = {''POST'', ''PUT'', ''DELETE'', ''PATCH''}"
  by (simp add: MUTATION_METHODS_def)

lemma safe_names: "SAFE_METHODS = {''GET'', ''HEAD'', ''OPTIONS''}"
  by (simp add: SAFE_METHODS_def)

lemma body_size_of_read:
  "content r = Inr c \<Longrightarrow> body_size_of r = Inr (case c of None \<Rightarrow> 0 | Some b \<Rightarrow> length b)"
  by (simp add: body_size_of_def split: option.splits)

lemma body_size_of_raise: "content r = Inl e \<Longrightarrow> body_size_of r = Inl e"
  by (simp add: body_size_of_def)

lemma log_blocked_request_quiet:
  assumes "io_fault ev = None"
  shows "snd (log_blocked_request ev m h p n w) =
      w\<lparr>log_dir := True,
        log_file := Some (file_text w
                          @ json_dumps (log_entry (utcnow_isoformat ev) m h p n) @ [CHR 0x0A]),
        ctx_log := ctx_log w @
          [(Warn, ''BLOCKED: '' @ m @ '' '' @ h @ p @ '' (body: '' @ str_nat n @ '' bytes)'')]\<rparr>"
  using assms
  by (simp add: log_blocked_request_def write_log_line_def ctx_log_write_def Let_def
      del: json_dumps.simps)

lemma log_blocked_request_fault:
  assumes "io_fault ev = Some f"
  shows "ctx_log (snd (log_blocked_request ev m h p n w)) =
      ctx_log w @
        [(Error, ''Failed to write log: '' @ exc_str (fault_exn f)),
         (Warn, ''BLOCKED: '' @ m @ '' '' @ h @ p @ '' (body: '' @ str_nat n @ '' bytes)'')]"
  using assms
  by (cases f)
     (simp_all add: log_blocked_request_def write_log_line_def ctx_log_write_def Let_def
        del: json_dumps.simps)

lemma forbidden_status: "status_code (forbidden m h) = 403"
  by (simp add: forbidden_def Response_make_def)

lemma forbidden_body:
  "body (forbidden m h) =
     json_dumps (JObj
       [(''error'', JStr ''Request blocked by network filter''),
        (''message'', JStr (m @ '' requests to '' @ h @ '' are not allowed'')),
        (''hint'', JStr ''Add this domain to whitelist.json if needed'')])"
  by (simp add: forbidden_def Response_make_def del: json_dumps.simps)

lemma forbidden_headers:
  "headers (forbidden m h) =
     [(''Content-Type'', ''application/json''),
      (''content-length'', str_nat (length (body (forbidden m h))))]"
  by (simp add: forbidden_def Response_make_def del: json_dumps.simps)

subsection \<open>C3: safe methods\<close>

text \<open>
  C3. A request whose method is GET, HEAD or OPTIONS is allowed whatever its host, path
  and body and whatever the whitelist holds: the hook returns normally, the flow is
  left as it was (no response is attached), and the only change of the state is one
  line of level info in the proxy's log; the log file is not touched.
\<close>

theorem request_safe_method_allowed:
  assumes "method (flow_request flow) \<in> {''GET'', ''HEAD'', ''OPTIONS''}"
  shows "fst (request ev flow w) = Inr ()
    \<and> fst (snd (request ev flow w)) = flow
    \<and> snd (snd (request ev flow w)) =
        w\<lparr>ctx_log := ctx_log w @
          [(Info, ''ALLOWED: '' @ method (flow_request flow) @ '' ''
                    @ host (flow_request flow) @ path (flow_request flow))]\<rparr>"
proof -
  have "method (flow_request flow) \<in> SAFE_METHODS"
    using assms by (simp only: safe_names)
  then show ?thesis
    by (simp add: request_safe ctx_log_write_def)
qed

theorem request_safe_method_allowed_witness:
  "''GET'' \<in> {''GET'', ''HEAD'', ''OPTIONS''}
   \<and> request denied (flow_of ''GET'' ''evilexample.com'') two_domains =
       (Inr (), flow_of ''GET'' ''evilexample.com'',
        two_domains\<lparr>ctx_log := [(Info, ''ALLOWED: GET evilexample.com/v1/items'')]\<rparr>)"
proof -
  have m: "method (flow_request (flow_of ''GET'' ''evilexample.com'')) \<in> {''GET'', ''HEAD'', ''OPTIONS''}"
    by (simp add: flow_of_def)
  have "request denied (flow_of ''GET'' ''evilexample.com'') two_domains =
       (Inr (), flow_of ''GET'' ''evilexample.com'',
        two_domains\<lparr>ctx_log := ctx_log two_domains @
          [(Info, ''ALLOWED: '' @ method (flow_request (flow_of ''GET'' ''evilexample.com'')) @ '' ''
             @ host (flow_request (flow_of ''GET'' ''evilexample.com''))
             @ path (flow_request (flow_of ''GET'' ''evilexample.com'')))]\<rparr>)"
    using request_safe_method_allowed [OF m, of denied two_domains]
    by (simp add: prod_eq_iff)
  then show ?thesis
    by (simp add: flow_of_def two_domains_def)
qed

subsection \<open>C10: methods in neither set\<close>

text \<open>
  C10. Methods are compared as strings, case included. A request whose method is none
  of GET, HEAD, OPTIONS, POST, PUT, DELETE, PATCH passes: the hook returns normally,
  the flow is left as it was, and the only change of the state is one warning about
  the unknown method in the proxy's log. The witness is the lowercase method
  \<open>post\<close> sent to a host that is not on the whitelist.
\<close>

theorem request_unknown_method_passes:
  assumes "method (flow_request flow) \<notin>
      {''GET'', ''HEAD'', ''OPTIONS'', ''POST'', ''PUT'', ''DELETE'', ''PATCH''}"
  shows "fst (request ev flow w) = Inr ()
    \<and> fst (snd (request ev flow w)) = flow
    \<and> snd (snd (request ev flow w)) =
        w\<lparr>ctx_log := ctx_log w @
          [(Warn, ''UNKNOWN METHOD: '' @ method (flow_request flow) @ '' ''
                    @ host (flow_request flow) @ path (flow_request flow))]\<rparr>"
proof -
  have "method (flow_request flow) \<notin> SAFE_METHODS"
    and "method (flow_request flow) \<notin> MUTATION_METHODS"
    using assms by (simp_all only: safe_names mutation_names) simp_all
  then show ?thesis
    by (simp add: request_unknown ctx_log_write_def)
qed

theorem request_unknown_method_passes_witness:
  "''post'' \<notin> {''GET'', ''HEAD'', ''OPTIONS'', ''POST'', ''PUT'', ''DELETE'', ''PATCH''}
   \<and> fst (is_domain_allowed ''evilexample.com'' two_domains) = Inr False
   \<and> request quiet (flow_of ''post'' ''evilexample.com'') two_domains =
       (Inr (), flow_of ''post'' ''evilexample.com'',
        two_domains\<lparr>ctx_log := [(Warn, ''UNKNOWN METHOD: post evilexample.com/v1/items'')]\<rparr>)"
proof -
  have m: "method (flow_request (flow_of ''post'' ''evilexample.com'')) \<notin>
      {''GET'', ''HEAD'', ''OPTIONS'', ''POST'', ''PUT'', ''DELETE'', ''PATCH''}"
    by (simp add: flow_of_def)
  have e: "fst (is_domain_allowed ''evilexample.com'' two_domains) = Inr False"
    by (simp add: is_domain_allowed_def two_domains_def endswith_def)
  have "request quiet (flow_of ''post'' ''evilexample.com'') two_domains =
       (Inr (), flow_of ''post'' ''evilexample.com'',
        two_domains\<lparr>ctx_log := ctx_log two_domains @
          [(Warn, ''UNKNOWN METHOD: '' @ method (flow_request (flow_of ''post'' ''evilexample.com'')) @ '' ''
             @ host (flow_request (flow_of ''post'' ''evilexample.com''))
             @ path (flow_request (flow_of ''post'' ''evilexample.com'')))]\<rparr>)"
    using request_unknown_method_passes [OF m, of quiet two_domains]
    by (simp add: prod_eq_iff)
  with e show ?thesis
    by (simp add: flow_of_def two_domains_def)
qed

subsection \<open>C8: \<open>is_domain_allowed\<close> reads and decides, nothing else\<close>

text \<open>
  C8. A call of \<open>is_domain_allowed\<close> leaves the state exactly as it found it. Its
  result is the same in any two states with the same \<open>ALLOWED_DOMAINS\<close>, whatever the
  log file and the proxy's log hold; and for a whitelist of domain strings it is the
  same for any two orders in which the set may be iterated.
\<close>

theorem is_domain_allowed_pure:
  "snd (is_domain_allowed h w) = w
   \<and> (ALLOWED_DOMAINS w = ALLOWED_DOMAINS w' \<longrightarrow>
        fst (is_domain_allowed h w) = fst (is_domain_allowed h w'))
   \<and> (list_all is_str (ALLOWED_DOMAINS w) \<and> set (ALLOWED_DOMAINS w) = set (ALLOWED_DOMAINS w') \<longrightarrow>
        fst (is_domain_allowed h w) = fst (is_domain_allowed h w'))"
proof (intro conjI impI)
  show "snd (is_domain_allowed h w) = w"
    by (rule is_domain_allowed_world)
next
  assume "ALLOWED_DOMAINS w = ALLOWED_DOMAINS w'"
  then show "fst (is_domain_allowed h w) = fst (is_domain_allowed h w')"
    by (simp add: is_domain_allowed_def)
next
  assume a: "list_all is_str (ALLOWED_DOMAINS w) \<and> set (ALLOWED_DOMAINS w) = set (ALLOWED_DOMAINS w')"
  then have "list_all is_str (ALLOWED_DOMAINS w')"
    using list_all_set_eq [of "ALLOWED_DOMAINS w" "ALLOWED_DOMAINS w'" is_str] by simp
  with a show "fst (is_domain_allowed h w) = fst (is_domain_allowed h w')"
    by (simp add: is_domain_allowed_str)
qed

theorem is_domain_allowed_pure_witness:
  "ALLOWED_DOMAINS two_domains = ALLOWED_DOMAINS (two_domains\<lparr>log_file := Some ''earlier lines''\<rparr>)
   \<and> fst (is_domain_allowed ''api.example.com'' two_domains) =
       fst (is_domain_allowed ''api.example.com'' (two_domains\<lparr>log_file := Some ''earlier lines''\<rparr>))
   \<and> list_all is_str (ALLOWED_DOMAINS two_domains)
   \<and> set (ALLOWED_DOMAINS two_domains) = set (ALLOWED_DOMAINS two_domains_later)
   \<and> fst (is_domain_allowed ''api.example.com'' two_domains) =
       fst (is_domain_allowed ''api.example.com'' two_domains_later)
   \<and> snd (is_domain_allowed ''api.example.com'' two_domains_later) = two_domains_later"
proof -
  have a: "ALLOWED_DOMAINS two_domains =
      ALLOWED_DOMAINS (two_domains\<lparr>log_file := Some ''earlier lines''\<rparr>)"
    by simp
  have b: "list_all is_str (ALLOWED_DOMAINS two_domains) \<and>
      set (ALLOWED_DOMAINS two_domains) = set (ALLOWED_DOMAINS two_domains_later)"
    by (auto simp: two_domains_def two_domains_later_def)
  note t1 = is_domain_allowed_pure
    [of "''api.example.com''" two_domains "two_domains\<lparr>log_file := Some ''earlier lines''\<rparr>"]
  note t2 = is_domain_allowed_pure [of "''api.example.com''" two_domains two_domains_later]
  note t3 = is_domain_allowed_pure [of "''api.example.com''" two_domains_later two_domains]
  from t1 a have c: "fst (is_domain_allowed ''api.example.com'' two_domains) =
       fst (is_domain_allowed ''api.example.com'' (two_domains\<lparr>log_file := Some ''earlier lines''\<rparr>))"
    by blast
  from t2 b have d: "fst (is_domain_allowed ''api.example.com'' two_domains) =
       fst (is_domain_allowed ''api.example.com'' two_domains_later)"
    by blast
  from t3 have e: "snd (is_domain_allowed ''api.example.com'' two_domains_later) = two_domains_later"
    by blast
  from a b c d e show ?thesis
    by blast
qed

subsection \<open>C7: the whitelist is never written\<close>

text \<open>
  C7. The hook, \<open>is_domain_allowed\<close> and \<open>log_blocked_request\<close> leave
  \<open>ALLOWED_DOMAINS\<close> as it is, whatever their arguments and however they end.
\<close>

theorem whitelist_read_only:
  "ALLOWED_DOMAINS (snd (snd (request ev flow w))) = ALLOWED_DOMAINS w
   \<and> ALLOWED_DOMAINS (snd (is_domain_allowed h w)) = ALLOWED_DOMAINS w
   \<and> ALLOWED_DOMAINS (snd (log_blocked_request ev m h p n w)) = ALLOWED_DOMAINS w"
proof -
  have "ALLOWED_DOMAINS (snd (snd (request ev flow w))) = ALLOWED_DOMAINS w"
  proof (cases "method (flow_request flow) \<in> SAFE_METHODS")
    case True
    then show ?thesis
      by (simp add: request_safe ctx_log_write_def)
  next
    case False
    show ?thesis
    proof (cases "method (flow_request flow) \<in> MUTATION_METHODS")
      case True
      then show ?thesis
        by (simp add: request_mutation log_blocked_request_whitelist ctx_log_write_def
            split: sum.splits bool.splits)
    next
      case no: False
      with False show ?thesis
        by (simp add: request_unknown ctx_log_write_def)
    qed
  qed
  then show ?thesis
    by (simp add: is_domain_allowed_world log_blocked_request_whitelist)
qed

subsection \<open>C5: which hosts a whitelisted domain covers\<close>

lemma subdomain_loop_match:
  assumes "JStr d \<in> set ds" and "endswith h (''.'' @ d)"
  shows "subdomain_loop h ds \<noteq> Inr False"
  using assms subdomain_loop_False [of h ds] by blast

lemma is_domain_allowed_match:
  assumes "JStr d \<in> set (ALLOWED_DOMAINS w)"
    and "h = d \<or> (\<exists>p. h = p @ ''.'' @ d)"
  shows "fst (is_domain_allowed h w) \<noteq> Inr False"
proof (cases "JStr h \<in> set (ALLOWED_DOMAINS w)")
  case True
  then show ?thesis
    by (simp add: is_domain_allowed_def)
next
  case False
  with assms have "\<exists>p. h = p @ ''.'' @ d"
    by blast
  then have "endswith h (''.'' @ d)"
    by (simp only: endswith_iff)
  with assms(1) have "subdomain_loop h (ALLOWED_DOMAINS w) \<noteq> Inr False"
    by (rule subdomain_loop_match)
  with False show ?thesis
    by (simp add: is_domain_allowed_def)
qed

text \<open>
  C5, as the claim states it, fails: \<open>example.com\<close> is on the whitelist and is a
  suffix of the host \<open>evilexample.com\<close>, and a POST to that host is blocked with
  status 403.
\<close>

theorem plain_suffix_is_blocked:
  "JStr ''example.com'' \<in> set (ALLOWED_DOMAINS two_domains)
   \<and> ''evilexample.com'' = ''evil'' @ ''example.com''
   \<and> fst (is_domain_allowed ''evilexample.com'' two_domains) = Inr False
   \<and> fst (snd (request quiet (flow_of ''POST'' ''evilexample.com'') two_domains)) =
       (flow_of ''POST'' ''evilexample.com'')
         \<lparr>flow_response := Some (forbidden ''POST'' ''evilexample.com'')\<rparr>
   \<and> status_code (forbidden ''POST'' ''evilexample.com'') = 403"
proof -
  let ?f = "flow_of ''POST'' ''evilexample.com''"
  have m: "method (flow_request ?f) \<in> MUTATION_METHODS"
    by (simp add: flow_of_def MUTATION_METHODS_def)
  have e: "fst (is_domain_allowed ''evilexample.com'' two_domains) = Inr False"
    by (simp add: is_domain_allowed_def two_domains_def endswith_def)
  then have "fst (is_domain_allowed (host (flow_request ?f)) two_domains) = Inr False"
    by (simp add: flow_of_def)
  moreover have "body_size_of (flow_request ?f) = Inr 2"
    by (simp add: body_size_of_def flow_of_def)
  ultimately
  have "fst (snd (request quiet ?f two_domains)) =
      ?f\<lparr>flow_response := Some (forbidden (method (flow_request ?f)) (host (flow_request ?f)))\<rparr>"
    using request_mutation [OF m, of quiet two_domains] by simp
  then have r: "fst (snd (request quiet ?f two_domains)) =
      ?f\<lparr>flow_response := Some (forbidden ''POST'' ''evilexample.com'')\<rparr>"
    by (simp add: flow_of_def)
  have d: "JStr ''example.com'' \<in> set (ALLOWED_DOMAINS two_domains)"
    by (simp add: two_domains_def)
  have x: "''evilexample.com'' = ''evil'' @ ''example.com''"
    by simp
  have c: "status_code (forbidden ''POST'' ''evilexample.com'') = 403"
    by (rule forbidden_status)
  from d x e r c show ?thesis
    by (intro conjI) assumption+
qed

text \<open>
  C5, amended. A request with a mutating method is not blocked whenever its host is
  equal to a member of the whitelist, or ends with a dot followed by a member of the
  whitelist: the flow is left as it was and the log file and its directory are not
  touched. When all members of the whitelist are strings, the hook returns normally
  and the only change of the state is one line of level info in the proxy's log.
\<close>

theorem request_matching_host_not_blocked:
  assumes "method (flow_request flow) \<in> {''POST'', ''PUT'', ''DELETE'', ''PATCH''}"
    and "JStr d \<in> set (ALLOWED_DOMAINS w)"
    and "host (flow_request flow) = d \<or> (\<exists>p. host (flow_request flow) = p @ ''.'' @ d)"
  shows "fst (snd (request ev flow w)) = flow
    \<and> log_file (snd (snd (request ev flow w))) = log_file w
    \<and> log_dir (snd (snd (request ev flow w))) = log_dir w
    \<and> (list_all is_str (ALLOWED_DOMAINS w) \<longrightarrow>
         request ev flow w =
           (Inr (), flow,
            w\<lparr>ctx_log := ctx_log w @
              [(Info, ''ALLOWED (whitelisted): '' @ method (flow_request flow) @ '' ''
                        @ host (flow_request flow) @ path (flow_request flow))]\<rparr>))"
proof -
  let ?h = "host (flow_request flow)"
  have m: "method (flow_request flow) \<in> MUTATION_METHODS"
    using assms(1) by (simp only: mutation_names)
  note r = request_mutation [OF m, of ev w]
  have n: "fst (is_domain_allowed ?h w) \<noteq> Inr False"
    using assms(2,3) by (rule is_domain_allowed_match)
  show ?thesis
  proof (cases "fst (is_domain_allowed ?h w)")
    case (Inl e)
    have "\<not> list_all is_str (ALLOWED_DOMAINS w)"
    proof
      assume "list_all is_str (ALLOWED_DOMAINS w)"
      then have "\<exists>b. fst (is_domain_allowed ?h w) = Inr b"
        by (simp add: is_domain_allowed_str)
      with Inl show False
        by simp
    qed
    with Inl r show ?thesis
      by simp
  next
    case (Inr b)
    with n have "b"
      by (cases b) simp_all
    with Inr r show ?thesis
      by (simp add: ctx_log_write_def)
  qed
qed

theorem request_matching_host_not_blocked_witness:
  "''POST'' \<in> {''POST'', ''PUT'', ''DELETE'', ''PATCH''}
   \<and> JStr ''example.com'' \<in> set (ALLOWED_DOMAINS two_domains)
   \<and> ''api.example.com'' = ''api'' @ ''.'' @ ''example.com''
   \<and> list_all is_str (ALLOWED_DOMAINS two_domains)
   \<and> request quiet (flow_of ''POST'' ''api.example.com'') two_domains =
       (Inr (), flow_of ''POST'' ''api.example.com'',
        two_domains\<lparr>ctx_log :=
          [(Info, ''ALLOWED (whitelisted): POST api.example.com/v1/items'')]\<rparr>)"
proof -
  let ?g = "flow_of ''POST'' ''api.example.com''"
  have m: "method (flow_request ?g) \<in> {''POST'', ''PUT'', ''DELETE'', ''PATCH''}"
    by (simp add: flow_of_def)
  have d: "JStr ''example.com'' \<in> set (ALLOWED_DOMAINS two_domains)"
    by (simp add: two_domains_def)
  have x: "''api.example.com'' = ''api'' @ ''.'' @ ''example.com''"
    by simp
  have "host (flow_request ?g) = ''api'' @ ''.'' @ ''example.com''"
    by (simp add: flow_of_def)
  then have "\<exists>p. host (flow_request ?g) = p @ ''.'' @ ''example.com''"
    by (rule exI [of _ "''api''"])
  then have h: "host (flow_request ?g) = ''example.com''
      \<or> (\<exists>p. host (flow_request ?g) = p @ ''.'' @ ''example.com'')"
    by (rule disjI2)
  have s: "list_all is_str (ALLOWED_DOMAINS two_domains)"
    by (simp add: two_domains_def)
  from request_matching_host_not_blocked [OF m d h, of quiet] s
  have "request quiet ?g two_domains =
      (Inr (), ?g,
       two_domains\<lparr>ctx_log := ctx_log two_domains @
         [(Info, ''ALLOWED (whitelisted): '' @ method (flow_request ?g) @ '' ''
                   @ host (flow_request ?g) @ path (flow_request ?g))]\<rparr>)"
    by blast
  then have r: "request quiet ?g two_domains =
       (Inr (), ?g,
        two_domains\<lparr>ctx_log :=
          [(Info, ''ALLOWED (whitelisted): POST api.example.com/v1/items'')]\<rparr>)"
    by (simp add: flow_of_def two_domains_def)
  have p: "''POST'' \<in> {''POST'', ''PUT'', ''DELETE'', ''PATCH''}"
    by simp
  from p d x s r show ?thesis
    by (intro conjI) assumption+
qed

subsection \<open>C4: the line written for a blocked request\<close>

lemma digit_not_newline: "n < 10 \<Longrightarrow> ''0123456789'' ! n \<noteq> CHR 0x0A"
proof -
  assume "n < 10"
  then have "''0123456789'' ! n \<in> set ''0123456789''"
    by (intro nth_mem) simp
  then show ?thesis
    by auto
qed

lemma str_nat_no_newline: "CHR 0x0A \<notin> set (str_nat n)"
proof (induction n rule: str_nat.induct)
  case (1 n)
  show ?case
  proof (cases "n < 10")
    case True
    then show ?thesis
      using digit_not_newline [OF True] by (subst str_nat.simps) auto
  next
    case False
    have "n mod 10 < 10"
      by simp
    then have "''0123456789'' ! (n mod 10) \<noteq> CHR 0x0A"
      by (rule digit_not_newline)
    with False 1 show ?thesis
      by (subst str_nat.simps) auto
  qed
qed

lemma hex_digit_not_newline: "n < 16 \<Longrightarrow> hex_digit n \<noteq> CHR 0x0A"
proof -
  assume "n < 16"
  then have "''0123456789abcdef'' ! n \<in> set ''0123456789abcdef''"
    by (intro nth_mem) simp
  then show ?thesis
    unfolding hex_digit_def by auto
qed

lemma escape_char_no_newline: "CHR 0x0A \<notin> set (escape_char c)"
proof -
  have "(of_char c :: nat) < 256"
    by simp
  then have "(of_char c :: nat) div 16 < 16"
    by arith
  then have a: "hex_digit ((of_char c :: nat) div 16) \<noteq> CHR 0x0A"
    by (rule hex_digit_not_newline)
  have "(of_char c :: nat) mod 16 < 16"
    by simp
  then have b: "hex_digit ((of_char c :: nat) mod 16) \<noteq> CHR 0x0A"
    by (rule hex_digit_not_newline)
  from a b show ?thesis
    by (auto simp: escape_char_def)
qed

lemma encode_no_newline: "CHR 0x0A \<notin> set (encode_basestring_ascii s)"
  by (simp add: encode_basestring_ascii_def escape_char_no_newline)

lemma log_entry_one_line:
  "CHR 0x0A \<notin> set (json_dumps (log_entry t m h p n))"
  by (simp add: log_entry_def encode_no_newline str_int_def str_nat_no_newline)


lemma request_blocked:
  assumes "method (flow_request flow) \<in> MUTATION_METHODS"
    and "fst (is_domain_allowed (host (flow_request flow)) w) = Inr False"
    and "body_size_of (flow_request flow) = Inr n"
  shows "request ev flow w =
      (Inr (),
       flow\<lparr>flow_response :=
         Some (forbidden (method (flow_request flow)) (host (flow_request flow)))\<rparr>,
       snd (log_blocked_request ev (method (flow_request flow)) (host (flow_request flow))
              (path (flow_request flow)) n w))"
  using request_mutation [OF assms(1), of ev w] assms(2,3) by simp

lemma blocked_world:
  assumes "method (flow_request flow) \<in> MUTATION_METHODS"
    and "fst (is_domain_allowed (host (flow_request flow)) w) = Inr False"
    and "body_size_of (flow_request flow) = Inr n"
  shows "snd (snd (request ev flow w)) =
      snd (log_blocked_request ev (method (flow_request flow)) (host (flow_request flow))
             (path (flow_request flow)) n w)"
  using request_blocked [OF assms, of ev] by simp

text \<open>
  C4, as the claim states it, fails: when the directory of the log file cannot be
  made, a POST to a host that is not on the whitelist is blocked with the 403
  response, and afterwards there is still no directory and no log file, so no line
  was appended.
\<close>

theorem blocked_request_without_log_line:
  "fst (is_domain_allowed ''evilexample.com'' two_domains) = Inr False
   \<and> flow_response (fst (snd (request read_only (flow_of ''POST'' ''evilexample.com'') two_domains)))
       = Some (forbidden ''POST'' ''evilexample.com'')
   \<and> log_file two_domains = None
   \<and> log_file (snd (snd (request read_only (flow_of ''POST'' ''evilexample.com'') two_domains)))
       = None
   \<and> log_dir (snd (snd (request read_only (flow_of ''POST'' ''evilexample.com'') two_domains)))
       = False"
proof -
  let ?f = "flow_of ''POST'' ''evilexample.com''"
  have m: "method (flow_request ?f) \<in> MUTATION_METHODS"
    by (simp add: flow_of_def MUTATION_METHODS_def)
  have e: "fst (is_domain_allowed ''evilexample.com'' two_domains) = Inr False"
    by (simp add: is_domain_allowed_def two_domains_def endswith_def)
  then have e': "fst (is_domain_allowed (host (flow_request ?f)) two_domains) = Inr False"
    by (simp add: flow_of_def)
  have z: "body_size_of (flow_request ?f) = Inr 2"
    by (simp add: body_size_of_def flow_of_def)
  from request_blocked [OF m e' z, of read_only]
  have "fst (snd (request read_only ?f two_domains)) =
      ?f\<lparr>flow_response := Some (forbidden (method (flow_request ?f)) (host (flow_request ?f)))\<rparr>"
    by simp
  then have r: "flow_response (fst (snd (request read_only ?f two_domains))) =
      Some (forbidden ''POST'' ''evilexample.com'')"
    by (simp add: flow_of_def)
  note b = blocked_world [OF m e' z, of read_only]
  have l: "log_file (snd (snd (request read_only ?f two_domains))) = None"
    unfolding b
    by (simp add: log_blocked_request_def write_log_line_def ctx_log_write_def read_only_def
        two_domains_def Let_def)
  have d: "log_dir (snd (snd (request read_only ?f two_domains))) = False"
    unfolding b
    by (simp add: log_blocked_request_def write_log_line_def ctx_log_write_def read_only_def
        two_domains_def Let_def)
  have n: "log_file two_domains = None"
    by (simp add: two_domains_def)
  from e r n l d show ?thesis
    by (intro conjI) assumption+
qed

text \<open>
  C4, amended. For every blocked request (the body was read and the 403 response is
  attached) whose file operations raise no error, the
  directory of the log file exists afterwards and the log file holds what it held
  before (nothing, when there was no file) followed by exactly one line: the text
  \<open>json.dumps\<close> gives for the object with the fields timestamp, method, host, path,
  body_size and action, in this order, and a newline. That text contains no newline
  of its own. The action is \<open>BLOCKED\<close>; method, host and path are those of the
  request; body_size is the length of the body, and 0 when there is no body.
\<close>

theorem blocked_request_log_line:
  assumes "method (flow_request flow) \<in> {''POST'', ''PUT'', ''DELETE'', ''PATCH''}"
    and "fst (is_domain_allowed (host (flow_request flow)) w) = Inr False"
    and "content (flow_request flow) = Inr c"
    and "io_fault ev = None"
  shows "flow_response (fst (snd (request ev flow w))) =
        Some (forbidden (method (flow_request flow)) (host (flow_request flow)))
    \<and> log_dir (snd (snd (request ev flow w)))
    \<and> log_file (snd (snd (request ev flow w))) =
        Some ((case log_file w of None \<Rightarrow> [] | Some text \<Rightarrow> text)
              @ json_dumps (JObj
                  [(''timestamp'', JStr (utcnow_isoformat ev)),
                   (''method'', JStr (method (flow_request flow))),
                   (''host'', JStr (host (flow_request flow))),
                   (''path'', JStr (path (flow_request flow))),
                   (''body_size'',
                      JInt (case c of None \<Rightarrow> 0 | Some b \<Rightarrow> int (length b))),
                   (''action'', JStr ''BLOCKED'')])
              @ [CHR 0x0A])
    \<and> CHR 0x0A \<notin> set (json_dumps (JObj
                  [(''timestamp'', JStr (utcnow_isoformat ev)),
                   (''method'', JStr (method (flow_request flow))),
                   (''host'', JStr (host (flow_request flow))),
                   (''path'', JStr (path (flow_request flow))),
                   (''body_size'',
                      JInt (case c of None \<Rightarrow> 0 | Some b \<Rightarrow> int (length b))),
                   (''action'', JStr ''BLOCKED'')]))"
proof -
  let ?r = "flow_request flow"
  let ?n = "case c of None \<Rightarrow> 0 | Some b \<Rightarrow> length b"
  let ?entry = "log_entry (utcnow_isoformat ev) (method ?r) (host ?r) (path ?r) ?n"
  have m: "method ?r \<in> MUTATION_METHODS"
    using assms(1) by (simp only: mutation_names)
  have z: "body_size_of ?r = Inr ?n"
    using assms(3) by (rule body_size_of_read)
  have n: "int ?n = (case c of None \<Rightarrow> 0 | Some b \<Rightarrow> int (length b))"
    by (simp split: option.splits)
  have o: "?entry = JObj
                  [(''timestamp'', JStr (utcnow_isoformat ev)),
                   (''method'', JStr (method ?r)),
                   (''host'', JStr (host ?r)),
                   (''path'', JStr (path ?r)),
                   (''body_size'', JInt (case c of None \<Rightarrow> 0 | Some b \<Rightarrow> int (length b))),
                   (''action'', JStr ''BLOCKED'')]"
    unfolding log_entry_def n ..
  note r = request_blocked [OF m assms(2) z, of ev]
  have a: "flow_response (fst (snd (request ev flow w))) = Some (forbidden (method ?r) (host ?r))"
    unfolding r by simp
  have w: "snd (snd (request ev flow w)) =
      w\<lparr>log_dir := True,
        log_file := Some (file_text w @ json_dumps ?entry @ [CHR 0x0A]),
        ctx_log := ctx_log w @
           [(Warn, ''BLOCKED: '' @ method ?r @ '' '' @ host ?r @ path ?r @ '' (body: ''
                     @ str_nat ?n @ '' bytes)'')]\<rparr>"
    unfolding r using log_blocked_request_quiet [OF assms(4)] by simp
  have d: "log_dir (snd (snd (request ev flow w)))"
    unfolding w by simp
  have f: "log_file (snd (snd (request ev flow w))) =
      Some ((case log_file w of None \<Rightarrow> [] | Some text \<Rightarrow> text) @ json_dumps ?entry @ [CHR 0x0A])"
    unfolding w by (simp add: file_text_def del: json_dumps.simps)
  have l: "CHR 0x0A \<notin> set (json_dumps ?entry)"
    by (rule log_entry_one_line)
  from a d f l show ?thesis
    unfolding o by (intro conjI) assumption+
qed

theorem blocked_request_log_line_witness:
  "''POST'' \<in> {''POST'', ''PUT'', ''DELETE'', ''PATCH''}
   \<and> fst (is_domain_allowed ''evilexample.com'' two_domains) = Inr False
   \<and> content (flow_request (flow_of ''POST'' ''evilexample.com'')) = Inr (Some ''{}'')
   \<and> io_fault quiet = None
   \<and> log_file two_domains = None
   \<and> log_file (snd (snd (request quiet (flow_of ''POST'' ''evilexample.com'') two_domains))) =
       Some (json_dumps (JObj
               [(''timestamp'', JStr ''2024-05-01T12:00:00.250000''),
                (''method'', JStr ''POST''),
                (''host'', JStr ''evilexample.com''),
                (''path'', JStr ''/v1/items''),
                (''body_size'', JInt 2),
                (''action'', JStr ''BLOCKED'')])
             @ [CHR 0x0A])"
proof -
  let ?f = "flow_of ''POST'' ''evilexample.com''"
  have p: "''POST'' \<in> {''POST'', ''PUT'', ''DELETE'', ''PATCH''}"
    by simp
  have m: "method (flow_request ?f) \<in> {''POST'', ''PUT'', ''DELETE'', ''PATCH''}"
    by (simp add: flow_of_def)
  have e: "fst (is_domain_allowed ''evilexample.com'' two_domains) = Inr False"
    by (simp add: is_domain_allowed_def two_domains_def endswith_def)
  then have e': "fst (is_domain_allowed (host (flow_request ?f)) two_domains) = Inr False"
    by (simp add: flow_of_def)
  have q: "io_fault quiet = None"
    by (simp add: quiet_def)
  have n: "log_file two_domains = None"
    by (simp add: two_domains_def)
  have b: "content (flow_request ?f) = Inr (Some ''{}'')"
    by (simp add: flow_of_def)
  note t = blocked_request_log_line [OF m e' b q, THEN conjunct2, THEN conjunct2, THEN conjunct1]
  have l: "log_file (snd (snd (request quiet ?f two_domains))) =
       Some (json_dumps (JObj
               [(''timestamp'', JStr ''2024-05-01T12:00:00.250000''),
                (''method'', JStr ''POST''),
                (''host'', JStr ''evilexample.com''),
                (''path'', JStr ''/v1/items''),
                (''body_size'', JInt 2),
                (''action'', JStr ''BLOCKED'')])
             @ [CHR 0x0A])"
    unfolding t by (simp add: flow_of_def quiet_def two_domains_def del: json_dumps.simps)
  from p e b q n l show ?thesis
    by (intro conjI) assumption+
qed

subsection \<open>C1: mutating methods are gated by the whitelist\<close>

lemma request_body_raises:
  assumes "method (flow_request flow) \<in> MUTATION_METHODS"
    and "fst (is_domain_allowed (host (flow_request flow)) w) = Inr False"
    and "content (flow_request flow) = Inl e"
  shows "request ev flow w = (Inl e, flow, w)"
  using request_mutation [OF assms(1), of ev w] assms(2) body_size_of_raise [OF assms(3)]
  by simp

lemma request_not_blocked:
  assumes "method (flow_request flow) \<in> MUTATION_METHODS"
    and "fst (is_domain_allowed (host (flow_request flow)) w) \<noteq> Inr False"
  shows "fst (snd (request ev flow w)) = flow
    \<and> log_file (snd (snd (request ev flow w))) = log_file w
    \<and> log_dir (snd (snd (request ev flow w))) = log_dir w"
proof (cases "fst (is_domain_allowed (host (flow_request flow)) w)")
  case (Inl e)
  with request_mutation [OF assms(1), of ev w] show ?thesis
    by simp
next
  case (Inr b)
  with assms(2) have "b"
    by (cases b) simp_all
  with Inr request_mutation [OF assms(1), of ev w] show ?thesis
    by (simp add: ctx_log_write_def)
qed

text \<open>
  C1, as the claim states it, fails in two ways. When nothing can be written to the
  log file, a POST to a host that is not on the whitelist gets the 403 response
  while the log file stays empty: the request is blocked without an audit entry.
  And when the body of such a POST cannot be decoded, line 91 raises before the
  response is set: \<open>is_domain_allowed\<close> is false and no response is attached.
\<close>

theorem blocked_without_entry_or_not_at_all:
  "fst (is_domain_allowed ''evilexample.com'' two_domains) = Inr False
   \<and> flow_response (fst (snd (request disk_full (flow_of ''POST'' ''evilexample.com'') two_domains)))
       = Some (forbidden ''POST'' ''evilexample.com'')
   \<and> log_file (snd (snd (request disk_full (flow_of ''POST'' ''evilexample.com'') two_domains)))
       = Some []
   \<and> request quiet (undecodable ''POST'' ''evilexample.com'') two_domains =
       (Inl (Exn ''ValueError'' ''Invalid Content-Encoding: utf8''),
        undecodable ''POST'' ''evilexample.com'', two_domains)
   \<and> flow_response (undecodable ''POST'' ''evilexample.com'') = None"
proof -
  let ?f = "flow_of ''POST'' ''evilexample.com''"
  let ?u = "undecodable ''POST'' ''evilexample.com''"
  have e: "fst (is_domain_allowed ''evilexample.com'' two_domains) = Inr False"
    by (simp add: is_domain_allowed_def two_domains_def endswith_def)
  have mf: "method (flow_request ?f) \<in> MUTATION_METHODS"
    by (simp add: flow_of_def MUTATION_METHODS_def)
  have ef: "fst (is_domain_allowed (host (flow_request ?f)) two_domains) = Inr False"
    using e by (simp add: flow_of_def)
  have zf: "body_size_of (flow_request ?f) = Inr 2"
    by (simp add: body_size_of_def flow_of_def)
  note r = request_blocked [OF mf ef zf, of disk_full]
  have a: "flow_response (fst (snd (request disk_full ?f two_domains))) =
      Some (forbidden ''POST'' ''evilexample.com'')"
    unfolding r by (simp add: flow_of_def)
  have l: "log_file (snd (snd (request disk_full ?f two_domains))) = Some []"
    unfolding r
    by (simp add: log_blocked_request_def write_log_line_def ctx_log_write_def disk_full_def
        two_domains_def file_text_def Let_def del: json_dumps.simps)
  have mu: "method (flow_request ?u) \<in> MUTATION_METHODS"
    by (simp add: undecodable_def MUTATION_METHODS_def)
  have eu: "fst (is_domain_allowed (host (flow_request ?u)) two_domains) = Inr False"
    using e by (simp add: undecodable_def)
  have cu: "content (flow_request ?u) = Inl (Exn ''ValueError'' ''Invalid Content-Encoding: utf8'')"
    by (simp add: undecodable_def)
  note u = request_body_raises [OF mu eu cu, of quiet]
  have n: "flow_response ?u = None"
    by (simp add: undecodable_def)
  from e a l u n show ?thesis
    by (intro conjI) assumption+
qed

text \<open>
  C1, amended. For a request whose method is POST, PUT, DELETE or PATCH and whose
  body can be read, the hook blocks the request if and only if \<open>is_domain_allowed\<close>
  returns false for its host. Blocking means: the hook returns normally, the flow
  carries the response with status 403 and the JSON body, and the state is the one
  \<open>log_blocked_request\<close> leaves, called with the method, host, path and body size of
  the request; when the file operations raise no error, the log file then holds
  what it held before followed by the line of the request. In every other case the
  flow is left as it was and the log file and its directory are not touched; when
  \<open>is_domain_allowed\<close> returns true, the only change of the state is one line of
  level info in the proxy's log.
\<close>

theorem request_mutation_blocked_iff:
  assumes "method (flow_request flow) \<in> {''POST'', ''PUT'', ''DELETE'', ''PATCH''}"
    and "content (flow_request flow) = Inr c"
  shows "((fst (request ev flow w) = Inr ()
          \<and> fst (snd (request ev flow w)) =
              flow\<lparr>flow_response :=
                Some (forbidden (method (flow_request flow)) (host (flow_request flow)))\<rparr>
          \<and> snd (snd (request ev flow w)) =
              snd (log_blocked_request ev (method (flow_request flow))
                     (host (flow_request flow)) (path (flow_request flow))
                     (case c of None \<Rightarrow> 0 | Some b \<Rightarrow> length b) w))
         \<longleftrightarrow> fst (is_domain_allowed (host (flow_request flow)) w) = Inr False)
    \<and> (fst (is_domain_allowed (host (flow_request flow)) w) = Inr False \<and> io_fault ev = None \<longrightarrow>
         log_dir (snd (snd (request ev flow w)))
         \<and> log_file (snd (snd (request ev flow w))) =
             Some ((case log_file w of None \<Rightarrow> [] | Some text \<Rightarrow> text)
                   @ json_dumps (log_entry (utcnow_isoformat ev) (method (flow_request flow))
                       (host (flow_request flow)) (path (flow_request flow))
                       (case c of None \<Rightarrow> 0 | Some b \<Rightarrow> length b))
                   @ [CHR 0x0A]))
    \<and> (fst (is_domain_allowed (host (flow_request flow)) w) \<noteq> Inr False \<longrightarrow>
         fst (snd (request ev flow w)) = flow
         \<and> log_file (snd (snd (request ev flow w))) = log_file w
         \<and> log_dir (snd (snd (request ev flow w))) = log_dir w)
    \<and> (fst (is_domain_allowed (host (flow_request flow)) w) = Inr True \<longrightarrow>
         request ev flow w =
           (Inr (), flow,
            w\<lparr>ctx_log := ctx_log w @
              [(Info, ''ALLOWED (whitelisted): '' @ method (flow_request flow) @ '' ''
                        @ host (flow_request flow) @ path (flow_request flow))]\<rparr>))
    \<and> status_code (forbidden (method (flow_request flow)) (host (flow_request flow))) = 403
    \<and> body (forbidden (method (flow_request flow)) (host (flow_request flow))) =
         json_dumps (JObj
           [(''error'', JStr ''Request blocked by network filter''),
            (''message'', JStr (method (flow_request flow) @ '' requests to ''
                                 @ host (flow_request flow) @ '' are not allowed'')),
            (''hint'', JStr ''Add this domain to whitelist.json if needed'')])
    \<and> headers (forbidden (method (flow_request flow)) (host (flow_request flow))) =
         [(''Content-Type'', ''application/json''),
          (''content-length'',
             str_nat (length (body (forbidden (method (flow_request flow))
                                      (host (flow_request flow))))))]"
proof -
  let ?m = "method (flow_request flow)"
  let ?h = "host (flow_request flow)"
  let ?p = "path (flow_request flow)"
  let ?n = "case c of None \<Rightarrow> 0 | Some b \<Rightarrow> length b"
  let ?logged = "snd (log_blocked_request ev ?m ?h ?p ?n w)"
  have m: "?m \<in> MUTATION_METHODS"
    using assms(1) by (simp only: mutation_names)
  have z: "body_size_of (flow_request flow) = Inr ?n"
    using assms(2) by (rule body_size_of_read)
  note r = request_mutation [OF m, of ev w]
  have gate: "(fst (request ev flow w) = Inr ()
          \<and> fst (snd (request ev flow w)) = flow\<lparr>flow_response := Some (forbidden ?m ?h)\<rparr>
          \<and> snd (snd (request ev flow w)) = ?logged)
         \<longleftrightarrow> fst (is_domain_allowed ?h w) = Inr False"
  proof (cases "fst (is_domain_allowed ?h w)")
    case (Inl e)
    with r show ?thesis
      by simp
  next
    case (Inr b)
    show ?thesis
    proof (cases b)
      case True
      with Inr r have a: "request ev flow w =
          (Inr (), flow,
           ctx_log_write Info (''ALLOWED (whitelisted): '' @ ?m @ '' '' @ ?h @ ?p) w)"
        by simp
      have "snd (snd (request ev flow w)) \<noteq> ?logged"
        unfolding a by (simp add: log_blocked_request_not_info [THEN not_sym])
      with Inr True show ?thesis
        by simp
    next
      case False
      with Inr r z show ?thesis
        by simp
    qed
  qed
  have line: "fst (is_domain_allowed ?h w) = Inr False \<and> io_fault ev = None \<longrightarrow>
         log_dir (snd (snd (request ev flow w)))
         \<and> log_file (snd (snd (request ev flow w))) =
             Some ((case log_file w of None \<Rightarrow> [] | Some text \<Rightarrow> text)
                   @ json_dumps (log_entry (utcnow_isoformat ev) ?m ?h ?p ?n) @ [CHR 0x0A])"
  proof
    assume a: "fst (is_domain_allowed ?h w) = Inr False \<and> io_fault ev = None"
    then have q: "io_fault ev = None" and d: "fst (is_domain_allowed ?h w) = Inr False"
      by simp_all
    show "log_dir (snd (snd (request ev flow w)))
         \<and> log_file (snd (snd (request ev flow w))) =
             Some ((case log_file w of None \<Rightarrow> [] | Some text \<Rightarrow> text)
                   @ json_dumps (log_entry (utcnow_isoformat ev) ?m ?h ?p ?n) @ [CHR 0x0A])"
      unfolding blocked_world [OF m d z] log_blocked_request_quiet [OF q]
      by (simp add: file_text_def del: json_dumps.simps)
  qed
  have other: "fst (is_domain_allowed ?h w) \<noteq> Inr False \<longrightarrow>
         fst (snd (request ev flow w)) = flow
         \<and> log_file (snd (snd (request ev flow w))) = log_file w
         \<and> log_dir (snd (snd (request ev flow w))) = log_dir w"
    using request_not_blocked [OF m, of w ev] by (rule impI)
  have allowed: "fst (is_domain_allowed ?h w) = Inr True \<longrightarrow>
         request ev flow w =
           (Inr (), flow,
            w\<lparr>ctx_log := ctx_log w @
              [(Info, ''ALLOWED (whitelisted): '' @ ?m @ '' '' @ ?h @ ?p)]\<rparr>)"
    using r by (simp add: ctx_log_write_def)
  note st = forbidden_status [of ?m ?h]
  note bd = forbidden_body [of ?m ?h]
  note hd = forbidden_headers [of ?m ?h]
  from gate line other allowed st bd hd show ?thesis
    by (intro conjI) assumption+
qed


theorem request_mutation_blocked_iff_witness:
  "''POST'' \<in> {''POST'', ''PUT'', ''DELETE'', ''PATCH''}
   \<and> content (flow_request (flow_of ''POST'' ''evilexample.com'')) = Inr (Some ''{}'')
   \<and> fst (is_domain_allowed ''evilexample.com'' two_domains) = Inr False
   \<and> io_fault quiet = None
   \<and> flow_response (fst (snd (request quiet (flow_of ''POST'' ''evilexample.com'') two_domains)))
       = Some (forbidden ''POST'' ''evilexample.com'')
   \<and> log_file (snd (snd (request quiet (flow_of ''POST'' ''evilexample.com'') two_domains))) =
       Some (json_dumps (log_entry ''2024-05-01T12:00:00.250000'' ''POST'' ''evilexample.com''
                           ''/v1/items'' 2)
             @ [CHR 0x0A])
   \<and> fst (is_domain_allowed ''api.example.com'' two_domains) = Inr True
   \<and> request quiet (flow_of ''POST'' ''api.example.com'') two_domains =
       (Inr (), flow_of ''POST'' ''api.example.com'',
        two_domains\<lparr>ctx_log :=
          [(Info, ''ALLOWED (whitelisted): POST api.example.com/v1/items'')]\<rparr>)"
proof -
  let ?f = "flow_of ''POST'' ''evilexample.com''"
  let ?g = "flow_of ''POST'' ''api.example.com''"
  have p: "''POST'' \<in> {''POST'', ''PUT'', ''DELETE'', ''PATCH''}"
    by simp
  have mf: "method (flow_request ?f) \<in> {''POST'', ''PUT'', ''DELETE'', ''PATCH''}"
    and mg: "method (flow_request ?g) \<in> {''POST'', ''PUT'', ''DELETE'', ''PATCH''}"
    by (simp_all add: flow_of_def)
  have cf: "content (flow_request ?f) = Inr (Some ''{}'')"
    and cg: "content (flow_request ?g) = Inr (Some ''{}'')"
    by (simp_all add: flow_of_def)
  have e: "fst (is_domain_allowed ''evilexample.com'' two_domains) = Inr False"
    and a: "fst (is_domain_allowed ''api.example.com'' two_domains) = Inr True"
    by (simp_all add: is_domain_allowed_def two_domains_def endswith_def)
  have ef: "fst (is_domain_allowed (host (flow_request ?f)) two_domains) = Inr False"
    using e by (simp add: flow_of_def)
  have ag: "fst (is_domain_allowed (host (flow_request ?g)) two_domains) = Inr True"
    using a by (simp add: flow_of_def)
  have q: "io_fault quiet = None"
    by (simp add: quiet_def)
  note tf = request_mutation_blocked_iff [OF mf cf, of quiet two_domains]
  note tg = request_mutation_blocked_iff [OF mg cg, of quiet two_domains]
  note blocked = iffD2 [OF tf [THEN conjunct1] ef]
  have r: "flow_response (fst (snd (request quiet ?f two_domains))) =
      Some (forbidden ''POST'' ''evilexample.com'')"
    unfolding blocked [THEN conjunct2, THEN conjunct1] by (simp add: flow_of_def)
  note line = mp [OF tf [THEN conjunct2, THEN conjunct1] conjI [OF ef q], THEN conjunct2]
  have l: "log_file (snd (snd (request quiet ?f two_domains))) =
       Some (json_dumps (log_entry ''2024-05-01T12:00:00.250000'' ''POST'' ''evilexample.com''
                           ''/v1/items'' 2)
             @ [CHR 0x0A])"
    unfolding line
    by (simp add: flow_of_def quiet_def two_domains_def numeral_2_eq_2 del: json_dumps.simps)
  note allowed =
    mp [OF tg [THEN conjunct2, THEN conjunct2, THEN conjunct2, THEN conjunct1] ag]
  have g: "request quiet ?g two_domains =
       (Inr (), ?g,
        two_domains\<lparr>ctx_log :=
          [(Info, ''ALLOWED (whitelisted): POST api.example.com/v1/items'')]\<rparr>)"
    unfolding allowed by (simp add: flow_of_def two_domains_def)
  from p cf e q r l a g show ?thesis
    by (intro conjI) assumption+
qed

subsection \<open>C6: the block does not depend on the log\<close>

lemma request_decision_env:
  "fst (request ev flow w) = fst (request ev' flow w)
   \<and> fst (snd (request ev flow w)) = fst (snd (request ev' flow w))"
proof (cases "method (flow_request flow) \<in> SAFE_METHODS")
  case True
  then show ?thesis
    by (simp add: request_safe)
next
  case False
  show ?thesis
  proof (cases "method (flow_request flow) \<in> MUTATION_METHODS")
    case True
    then show ?thesis
      by (simp add: request_mutation split: sum.splits bool.splits)
  next
    case no: False
    with False show ?thesis
      by (simp add: request_unknown)
  qed
qed

text \<open>
  C6. What the hook returns and what it does to the flow are the same whatever the
  file operations of the logger do, for every request and every state. When a
  request with a mutating method goes to a host for which \<open>is_domain_allowed\<close>
  returns false and the logger is reached (line 91 has read the body), then for
  every outcome of \<open>os.makedirs\<close>, \<open>open\<close> and the write, no exception leaves the
  hook and the flow carries the response with status 403 and the JSON body; when
  one of them raises, the error is reported to the proxy's log, followed by the
  warning that names the blocked request.
\<close>

theorem request_blocks_whatever_the_log_does:
  "fst (request ev flow w) = fst (request ev' flow w)
   \<and> fst (snd (request ev flow w)) = fst (snd (request ev' flow w))
   \<and> (method (flow_request flow) \<in> {''POST'', ''PUT'', ''DELETE'', ''PATCH''}
        \<and> fst (is_domain_allowed (host (flow_request flow)) w) = Inr False
        \<and> content (flow_request flow) = Inr c \<longrightarrow>
        fst (request ev flow w) = Inr ()
        \<and> flow_response (fst (snd (request ev flow w))) =
            Some (forbidden (method (flow_request flow)) (host (flow_request flow)))
        \<and> status_code (forbidden (method (flow_request flow)) (host (flow_request flow))) = 403
        \<and> body (forbidden (method (flow_request flow)) (host (flow_request flow))) =
            json_dumps (JObj
              [(''error'', JStr ''Request blocked by network filter''),
               (''message'', JStr (method (flow_request flow) @ '' requests to ''
                                    @ host (flow_request flow) @ '' are not allowed'')),
               (''hint'', JStr ''Add this domain to whitelist.json if needed'')])
        \<and> (io_fault ev = Some f \<longrightarrow>
             ctx_log (snd (snd (request ev flow w))) =
               ctx_log w @
                 [(Error, ''Failed to write log: '' @ exc_str (fault_exn f)),
                  (Warn, ''BLOCKED: '' @ method (flow_request flow) @ '' ''
                           @ host (flow_request flow) @ path (flow_request flow)
                           @ '' (body: ''
                           @ str_nat (case c of None \<Rightarrow> 0 | Some b \<Rightarrow> length b)
                           @ '' bytes)'')]))"
proof -
  let ?m = "method (flow_request flow)"
  let ?h = "host (flow_request flow)"
  let ?p = "path (flow_request flow)"
  let ?n = "case c of None \<Rightarrow> 0 | Some b \<Rightarrow> length b"
  note same = request_decision_env [of ev flow w ev']
  have blocked: "?m \<in> {''POST'', ''PUT'', ''DELETE'', ''PATCH''}
        \<and> fst (is_domain_allowed ?h w) = Inr False
        \<and> content (flow_request flow) = Inr c \<longrightarrow>
        fst (request ev flow w) = Inr ()
        \<and> flow_response (fst (snd (request ev flow w))) = Some (forbidden ?m ?h)
        \<and> status_code (forbidden ?m ?h) = 403
        \<and> body (forbidden ?m ?h) =
            json_dumps (JObj
              [(''error'', JStr ''Request blocked by network filter''),
               (''message'', JStr (?m @ '' requests to '' @ ?h @ '' are not allowed'')),
               (''hint'', JStr ''Add this domain to whitelist.json if needed'')])
        \<and> (io_fault ev = Some f \<longrightarrow>
             ctx_log (snd (snd (request ev flow w))) =
               ctx_log w @
                 [(Error, ''Failed to write log: '' @ exc_str (fault_exn f)),
                  (Warn, ''BLOCKED: '' @ ?m @ '' '' @ ?h @ ?p @ '' (body: ''
                           @ str_nat ?n @ '' bytes)'')])"
  proof
    assume a: "?m \<in> {''POST'', ''PUT'', ''DELETE'', ''PATCH''}
        \<and> fst (is_domain_allowed ?h w) = Inr False
        \<and> content (flow_request flow) = Inr c"
    then have m: "?m \<in> MUTATION_METHODS"
      by (simp only: mutation_names)
    from a have d: "fst (is_domain_allowed ?h w) = Inr False"
      by simp
    from a have "content (flow_request flow) = Inr c"
      by simp
    then have z: "body_size_of (flow_request flow) = Inr ?n"
      by (rule body_size_of_read)
    note r = request_blocked [OF m d z, of ev]
    have r1: "fst (request ev flow w) = Inr ()"
      unfolding r by simp
    have r2: "flow_response (fst (snd (request ev flow w))) = Some (forbidden ?m ?h)"
      unfolding r by simp
    have r3: "io_fault ev = Some f \<longrightarrow>
             ctx_log (snd (snd (request ev flow w))) =
               ctx_log w @
                 [(Error, ''Failed to write log: '' @ exc_str (fault_exn f)),
                  (Warn, ''BLOCKED: '' @ ?m @ '' '' @ ?h @ ?p @ '' (body: ''
                           @ str_nat ?n @ '' bytes)'')]"
    proof
      assume "io_fault ev = Some f"
      then show "ctx_log (snd (snd (request ev flow w))) =
               ctx_log w @
                 [(Error, ''Failed to write log: '' @ exc_str (fault_exn f)),
                  (Warn, ''BLOCKED: '' @ ?m @ '' '' @ ?h @ ?p @ '' (body: ''
                           @ str_nat ?n @ '' bytes)'')]"
        unfolding r by (simp add: log_blocked_request_fault)
    qed
    from r1 r2 forbidden_status [of ?m ?h] forbidden_body [of ?m ?h] r3
    show "fst (request ev flow w) = Inr ()
        \<and> flow_response (fst (snd (request ev flow w))) = Some (forbidden ?m ?h)
        \<and> status_code (forbidden ?m ?h) = 403
        \<and> body (forbidden ?m ?h) =
            json_dumps (JObj
              [(''error'', JStr ''Request blocked by network filter''),
               (''message'', JStr (?m @ '' requests to '' @ ?h @ '' are not allowed'')),
               (''hint'', JStr ''Add this domain to whitelist.json if needed'')])
        \<and> (io_fault ev = Some f \<longrightarrow>
             ctx_log (snd (snd (request ev flow w))) =
               ctx_log w @
                 [(Error, ''Failed to write log: '' @ exc_str (fault_exn f)),
                  (Warn, ''BLOCKED: '' @ ?m @ '' '' @ ?h @ ?p @ '' (body: ''
                           @ str_nat ?n @ '' bytes)'')])"
      by (intro conjI) assumption+
  qed
  from same [THEN conjunct1] same [THEN conjunct2] blocked show ?thesis
    by (intro conjI) assumption+
qed


theorem request_blocks_whatever_the_log_does_witness:
  "''POST'' \<in> {''POST'', ''PUT'', ''DELETE'', ''PATCH''}
   \<and> fst (is_domain_allowed ''evilexample.com'' two_domains) = Inr False
   \<and> content (flow_request (flow_of ''POST'' ''evilexample.com'')) = Inr (Some ''{}'')
   \<and> io_fault denied = Some (OpenFails (Exn ''PermissionError'' ''[Errno 13] Permission denied''))
   \<and> fst (request denied (flow_of ''POST'' ''evilexample.com'') two_domains) = Inr ()
   \<and> flow_response (fst (snd (request denied (flow_of ''POST'' ''evilexample.com'') two_domains)))
       = Some (forbidden ''POST'' ''evilexample.com'')
   \<and> status_code (forbidden ''POST'' ''evilexample.com'') = 403
   \<and> ctx_log (snd (snd (request denied (flow_of ''POST'' ''evilexample.com'') two_domains))) =
       [(Error, ''Failed to write log: [Errno 13] Permission denied''),
        (Warn, ''BLOCKED: POST evilexample.com/v1/items (body: 2 bytes)'')]
   \<and> fst (snd (request denied (flow_of ''POST'' ''evilexample.com'') two_domains)) =
       fst (snd (request quiet (flow_of ''POST'' ''evilexample.com'') two_domains))"
proof -
  let ?f = "flow_of ''POST'' ''evilexample.com''"
  let ?x = "OpenFails (Exn ''PermissionError'' ''[Errno 13] Permission denied'')"
  have p: "''POST'' \<in> {''POST'', ''PUT'', ''DELETE'', ''PATCH''}"
    by simp
  have e: "fst (is_domain_allowed ''evilexample.com'' two_domains) = Inr False"
    by (simp add: is_domain_allowed_def two_domains_def endswith_def)
  have b: "content (flow_request ?f) = Inr (Some ''{}'')"
    by (simp add: flow_of_def)
  have x: "io_fault denied = Some ?x"
    by (simp add: denied_def)
  have h: "method (flow_request ?f) \<in> {''POST'', ''PUT'', ''DELETE'', ''PATCH''}
      \<and> fst (is_domain_allowed (host (flow_request ?f)) two_domains) = Inr False
      \<and> content (flow_request ?f) = Inr (Some ''{}'')"
    using e by (simp add: flow_of_def)
  note t = request_blocks_whatever_the_log_does
    [of denied ?f two_domains quiet "Some ''{}''" ?x]
  note same = t [THEN conjunct2, THEN conjunct1]
  note blocked = mp [OF t [THEN conjunct2, THEN conjunct2] h]
  note r1 = blocked [THEN conjunct1]
  have r2: "flow_response (fst (snd (request denied ?f two_domains))) =
      Some (forbidden ''POST'' ''evilexample.com'')"
    using blocked [THEN conjunct2, THEN conjunct1] by (simp add: flow_of_def)
  have r3: "status_code (forbidden ''POST'' ''evilexample.com'') = 403"
    using blocked [THEN conjunct2, THEN conjunct2, THEN conjunct1] by (simp add: flow_of_def)
  have two: "str_nat (Suc (Suc 0)) = ''2''"
    by (subst str_nat.simps) simp
  have r4: "ctx_log (snd (snd (request denied ?f two_domains))) =
       [(Error, ''Failed to write log: [Errno 13] Permission denied''),
        (Warn, ''BLOCKED: POST evilexample.com/v1/items (body: 2 bytes)'')]"
    unfolding mp [OF blocked [THEN conjunct2, THEN conjunct2, THEN conjunct2, THEN conjunct2] x]
    by (simp add: flow_of_def two_domains_def two)
  from p e b x r1 r2 r3 r4 same show ?thesis
    by (intro conjI) assumption+
qed

subsection \<open>C9: a whitelist that cannot be loaded is empty\<close>

lemma is_domain_allowed_empty:
  "ALLOWED_DOMAINS w = [] \<Longrightarrow> fst (is_domain_allowed h w) = Inr False"
  by (simp add: is_domain_allowed_def)

lemma load_whitelist_error: "fst (load_whitelist py_hash (Inl e) w) = []"
  by (simp add: load_whitelist_def)

lemma load_whitelist_no_key:
  assumes "\<not> has_key data ''allowedDomains''"
  shows "fst (load_whitelist py_hash (Inr data) w) = []"
proof (cases data)
  case (JObj kvs)
  with assms have "map_of kvs ''allowedDomains'' = None"
    by (simp add: has_key_def map_of_eq_None_iff)
  with JObj show ?thesis
    by (simp add: load_whitelist_def dict_get_def py_set_def py_iter_def)
qed (simp_all add: load_whitelist_def dict_get_def)

lemma startup_whitelist:
  "ALLOWED_DOMAINS (startup py_hash opened w) = fst (load_whitelist py_hash opened w)"
  by (simp add: startup_def split: prod.splits)

text \<open>
  What holds of the loader and of the requests whose body can be read: when opening
  or parsing the whitelist file raises, or the parsed document has no key
  \<open>allowedDomains\<close>, \<open>load_whitelist\<close> returns the empty set, and in every state with
  that whitelist such a request with a mutating method gets the 403 response.
\<close>

lemma load_whitelist_empty_blocks_read_bodies:
  assumes "opened = Inl e \<or> (opened = Inr data \<and> \<not> has_key data ''allowedDomains'')"
    and "ALLOWED_DOMAINS w = ALLOWED_DOMAINS (startup py_hash opened w0)"
    and "method (flow_request flow) \<in> {''POST'', ''PUT'', ''DELETE'', ''PATCH''}"
    and "content (flow_request flow) = Inr c"
  shows "fst (load_whitelist py_hash opened w0) = []
    \<and> ALLOWED_DOMAINS (startup py_hash opened w0) = []
    \<and> fst (request ev flow w) = Inr ()
    \<and> fst (snd (request ev flow w)) =
        flow\<lparr>flow_response :=
          Some (forbidden (method (flow_request flow)) (host (flow_request flow)))\<rparr>
    \<and> status_code (forbidden (method (flow_request flow)) (host (flow_request flow))) = 403"
proof -
  have l: "fst (load_whitelist py_hash opened w0) = []"
    using assms(1) load_whitelist_error load_whitelist_no_key by blast
  then have s: "ALLOWED_DOMAINS (startup py_hash opened w0) = []"
    by (simp add: startup_whitelist)
  with assms(2) have d: "fst (is_domain_allowed (host (flow_request flow)) w) = Inr False"
    by (simp add: is_domain_allowed_empty)
  have m: "method (flow_request flow) \<in> MUTATION_METHODS"
    using assms(3) by (simp only: mutation_names)
  note r = request_blocked [OF m d body_size_of_read [OF assms(4)], of ev]
  from l s show ?thesis
    unfolding r by (simp add: forbidden_status)
qed

text \<open>
  C9 fails on the code. The whitelist file does not exist, so \<open>load_whitelist\<close>
  returns the empty set and \<open>is_domain_allowed\<close> is false for every host. A POST
  whose body cannot be decoded by its \<open>Content-Encoding\<close> is then not blocked: line
  91 reads \<open>flow.request.content\<close> outside any \<open>try\<close> and before the response is
  set, the \<open>ValueError\<close> of the getter leaves the hook, and the flow carries no
  response. Nothing is logged either.
\<close>

theorem undecodable_body_is_not_blocked:
  "ALLOWED_DOMAINS (startup (\<lambda>v. 0) no_file before_start) = []
   \<and> fst (is_domain_allowed ''evilexample.com'' (startup (\<lambda>v. 0) no_file before_start))
       = Inr False
   \<and> request quiet (undecodable ''POST'' ''evilexample.com'')
        (startup (\<lambda>v. 0) no_file before_start) =
       (Inl (Exn ''ValueError'' ''Invalid Content-Encoding: utf8''),
        undecodable ''POST'' ''evilexample.com'',
        startup (\<lambda>v. 0) no_file before_start)
   \<and> flow_response (undecodable ''POST'' ''evilexample.com'') = None"
proof -
  let ?w = "startup (\<lambda>v. 0) no_file before_start"
  let ?u = "undecodable ''POST'' ''evilexample.com''"
  have a: "ALLOWED_DOMAINS ?w = []"
    by (simp add: startup_whitelist no_file_def load_whitelist_error)
  then have e: "fst (is_domain_allowed ''evilexample.com'' ?w) = Inr False"
    by (rule is_domain_allowed_empty)
  have mu: "method (flow_request ?u) \<in> MUTATION_METHODS"
    by (simp add: undecodable_def MUTATION_METHODS_def)
  have eu: "fst (is_domain_allowed (host (flow_request ?u)) ?w) = Inr False"
    using a by (rule is_domain_allowed_empty)
  have cu: "content (flow_request ?u) = Inl (Exn ''ValueError'' ''Invalid Content-Encoding: utf8'')"
    by (simp add: undecodable_def)
  note u = request_body_raises [OF mu eu cu, of quiet]
  have n: "flow_response ?u = None"
    by (simp add: undecodable_def)
  from a e u n show ?thesis
    by (intro conjI) assumption+
qed

end
